theory Spec2Isabelle
  imports Complex_Main "HOL-Library.Sublist" "HOL-Library.Log_Nat"
begin

section \<open>Strings\<close>

text \<open>
  A Python \<open>str\<close> is modelled as a \<open>string\<close> whose characters are the code points
  0 to 255 (Latin-1), which is enough for every string literal of \<open>temp.py\<close>
  (the only non-ASCII one is the e-acute of the last company variation, code point 233).
  On this range \<open>str.lower\<close> adds 32 to the capital letters A to Z and to the
  capital letters 192 to 222 other than the multiplication sign 215, and changes nothing else.
\<close>

definition is_upper_code :: "nat \<Rightarrow> bool" where
  "is_upper_code n = ((65 \<le> n \<and> n \<le> 90) \<or> (192 \<le> n \<and> n \<le> 222 \<and> n \<noteq> 215))"

definition lower_char :: "char \<Rightarrow> char" where
  "lower_char c = (if is_upper_code (of_char c) then char_of (of_char c + (32::nat)) else c)"

definition lower :: "string \<Rightarrow> string" where
  "lower s = map lower_char s"

text \<open>\<open>s.replace(" ", "")\<close>\<close>

definition remove_spaces :: "string \<Rightarrow> string" where
  "remove_spaces s = filter (\<lambda>c. c \<noteq> CHR '' '') s"

text \<open>\<open>sub in s\<close> on two strings: \<open>sub\<close> occurs in \<open>s\<close> as a contiguous substring.\<close>

fun str_in :: "string \<Rightarrow> string \<Rightarrow> bool" where
  "str_in sub [] = (sub = [])"
| "str_in sub (c # cs) = (prefix sub (c # cs) \<or> str_in sub cs)"

text \<open>\<open>any(variation in text for variation in name_variations)\<close>\<close>

definition any_variation_in :: "string list \<Rightarrow> string \<Rightarrow> bool" where
  "any_variation_in name_variations text = list_ex (\<lambda>variation. str_in variation text) name_variations"

section \<open>Company names\<close>

text \<open>
  \<open>self.company_variations\<close>, a dict literal: its items in insertion order, which is
  the order the loop of \<open>normalize_company_name\<close> visits them in.
\<close>

definition company_variations :: "(string \<times> string list) list" where
  "company_variations =
   [(''jpmorgan'', [''jpmorgan'', ''jp morgan'', ''j.p. morgan'', ''jpm'', ''jpmc'',
                    ''j.p. morgan chase'', ''jpmorgan chase'']),
    (''goldman sachs'', [''goldman sachs'', ''goldman'', ''goldman sachs group'', ''gs'']),
    (''blackrock'', [''blackrock'', ''black rock'']),
    (''morgan stanley'', [''morgan stanley'', ''ms'']),
    (''citigroup'', [''citigroup'', ''citi'', ''citibank'']),
    (''bank of america'', [''bank of america'', ''bofa'', ''bac'', ''bank of america corporation'']),
    (''wells fargo'', [''wells fargo'', ''wf'', ''wells'']),
    (''microsoft'', [''microsoft'', ''msft'', ''microsoft corporation'']),
    (''apple'', [''apple'', ''aapl'', ''apple inc'', ''apple inc.'']),
    (''amazon'', [''amazon'', ''amzn'', ''amazon.com'', ''amazon.com inc'', ''amazon inc'']),
    (''google'', [''google'', ''googl'', ''goog'', ''alphabet'', ''alphabet inc'']),
    (''facebook'', [''facebook'', ''meta'', ''fb'', ''meta platforms'']),
    (''tesla'', [''tesla'', ''tsla'', ''tesla inc'', ''tesla motors'']),
    (''nvidia'', [''nvidia'', ''nvda'']),
    (''exxonmobil'', [''exxonmobil'', ''exxon mobil'', ''exxon'', ''xom'']),
    (''chevron'', [''chevron'', ''cvx'', ''chevron corporation'']),
    (''shell'', [''shell'', ''royal dutch shell'', ''rdsa'']),
    (''bp'', [''bp'', ''british petroleum'', ''bp plc'']),
    (''unilever'', [''unilever'', ''ul'']),
    (''nestle'', [''nestle'', ''nestl'' @ [CHR 0xE9], ''nsrgy''])]"

text \<open>
  The loop \<open>for standard_name, variations in self.company_variations.items()\<close>, which
  returns at the first entry whose list has the lowercased name; \<open>None\<close> when the loop
  ends without returning.
\<close>

fun lookup_variations :: "string \<Rightarrow> (string \<times> string list) list \<Rightarrow> (string \<times> string list) option" where
  "lookup_variations company_lower [] = None"
| "lookup_variations company_lower ((standard_name, variations) # rest) =
     (if company_lower \<in> set variations then Some (standard_name, variations)
      else lookup_variations company_lower rest)"

definition normalize_company_name :: "string \<Rightarrow> string \<times> string list" where
  "normalize_company_name company_name =
     (let company_lower = lower company_name in
      case lookup_variations company_lower company_variations of
        Some found \<Rightarrow> found
      | None \<Rightarrow> (company_lower, [company_lower, remove_spaces company_lower]))"

section \<open>Navigation with retries\<close>

text \<open>
  \<open>safe_get\<close> calls \<open>self.driver.get(url)\<close> up to \<open>retries\<close> times. The browser is the
  environment: \<open>driver_get url k\<close> says whether the call of attempt \<open>k\<close> (counted from 0)
  returns, \<open>False\<close> standing for any exception it raises, which \<open>except Exception\<close>
  catches. What the function does to the outside is recorded as a list of events.
  The result is \<open>Some True\<close>, \<open>Some False\<close>, or \<open>None\<close> when the loop ends without a
  \<open>return\<close> (Python's implicit \<open>None\<close>).
\<close>

datatype 'd event = Navigate string | Sleep 'd

fun safe_get_loop ::
  "(string \<Rightarrow> nat \<Rightarrow> bool) \<Rightarrow> string \<Rightarrow> int \<Rightarrow> 'd \<Rightarrow> nat \<Rightarrow> nat \<Rightarrow> bool option \<times> 'd event list" where
  "safe_get_loop driver_get url retries retry_delay attempt 0 = (None, [])"
| "safe_get_loop driver_get url retries retry_delay attempt (Suc remaining) =
     (if driver_get url attempt then (Some True, [Navigate url])
      else if int attempt < retries - 1 then
        (case safe_get_loop driver_get url retries retry_delay (Suc attempt) remaining of
           (result, events) \<Rightarrow> (result, Navigate url # Sleep retry_delay # events))
      else (Some False, [Navigate url]))"

text \<open>\<open>range(retries)\<close> has \<open>nat retries\<close> elements (none when \<open>retries \<le> 0\<close>).\<close>

definition safe_get ::
  "(string \<Rightarrow> nat \<Rightarrow> bool) \<Rightarrow> string \<Rightarrow> int \<Rightarrow> 'd \<Rightarrow> bool option \<times> 'd event list" where
  "safe_get driver_get url retries retry_delay =
     safe_get_loop driver_get url retries retry_delay 0 (nat retries)"

text \<open>
  The events of \<open>n\<close> attempts with a pause of \<open>retry_delay\<close> after each but the last.
\<close>

fun attempts_trace :: "string \<Rightarrow> 'd \<Rightarrow> nat \<Rightarrow> 'd event list" where
  "attempts_trace url retry_delay 0 = []"
| "attempts_trace url retry_delay (Suc 0) = [Navigate url]"
| "attempts_trace url retry_delay (Suc (Suc n)) =
     Navigate url # Sleep retry_delay # attempts_trace url retry_delay (Suc n)"

section \<open>Counting matches in a text\<close>

text \<open>
  The patterns of the analysis passes are \<open>r'\b' + re.escape(keyword) + r'\b'\<close>: the
  keyword itself, between two word boundaries. \<open>\w\<close> on the code points 0 to 255 is:
  digits, letters, the underscore, and the letters and numbers of the upper half
  (170, 178, 179, 181, 185, 186, 188 to 190, 192 to 214, 216 to 246, 248 to 255).
\<close>

definition is_word_code :: "nat \<Rightarrow> bool" where
  "is_word_code n =
     ((48 \<le> n \<and> n \<le> 57) \<or> (65 \<le> n \<and> n \<le> 90) \<or> n = 95 \<or> (97 \<le> n \<and> n \<le> 122) \<or>
      n = 170 \<or> n = 178 \<or> n = 179 \<or> n = 181 \<or> n = 185 \<or> n = 186 \<or>
      (188 \<le> n \<and> n \<le> 190) \<or> (192 \<le> n \<and> n \<le> 214) \<or> (216 \<le> n \<and> n \<le> 246) \<or>
      (248 \<le> n \<and> n \<le> 255))"

text \<open>
  A position of a text is given by the character before it and the rest of the text from
  it on; \<open>None\<close> is the start or the end of the text. \<open>\b\<close> holds where exactly one of the
  two neighbours is a word character.
\<close>

definition word_at :: "char option \<Rightarrow> bool" where
  "word_at c = (case c of None \<Rightarrow> False | Some x \<Rightarrow> is_word_code (of_char x))"

definition boundary :: "char option \<Rightarrow> char option \<Rightarrow> bool" where
  "boundary left right = (word_at left \<noteq> word_at right)"

definition first_char :: "string \<Rightarrow> char option" where
  "first_char s = (case s of [] \<Rightarrow> None | c # _ \<Rightarrow> Some c)"

text \<open>
  The pattern matches at a position when the keyword is a prefix of the rest, there is a
  boundary in front of it and a boundary behind it.
\<close>

definition match_here :: "string \<Rightarrow> char option \<Rightarrow> string \<Rightarrow> bool" where
  "match_here keyword prev rest =
     (prefix keyword rest \<and>
      boundary prev (first_char rest) \<and>
      boundary (if keyword = [] then prev else Some (last keyword))
               (first_char (drop (length keyword) rest)))"

text \<open>
  \<open>len(re.findall(pattern, content))\<close>: the scan goes from left to right, and after a
  match it goes on behind the match, so matches do not overlap. \<open>skip\<close> is the number of
  characters of the last match still to pass.
\<close>

fun findall_count :: "string \<Rightarrow> nat \<Rightarrow> char option \<Rightarrow> string \<Rightarrow> nat" where
  "findall_count keyword skip prev [] =
     (if skip = 0 \<and> match_here keyword prev [] then 1 else 0)"
| "findall_count keyword skip prev (c # cs) =
     (if 0 < skip then findall_count keyword (skip - 1) (Some c) cs
      else if match_here keyword prev (c # cs)
           then 1 + findall_count keyword (length keyword - 1) (Some c) cs
           else findall_count keyword 0 (Some c) cs)"

definition whole_word_count :: "string \<Rightarrow> string \<Rightarrow> nat" where
  "whole_word_count keyword content = findall_count keyword 0 None content"

text \<open>
  \<open>content.count(sub)\<close>: the number of occurrences of \<open>sub\<close> in \<open>content\<close> that do not
  overlap, scanning from the left.
\<close>

fun count_from :: "string \<Rightarrow> nat \<Rightarrow> string \<Rightarrow> nat" where
  "count_from sub skip [] = (if sub = [] then 1 else 0)"
| "count_from sub skip (c # cs) =
     (if 0 < skip then count_from sub (skip - 1) cs
      else if prefix sub (c # cs) then 1 + count_from sub (length sub - 1) cs
      else count_from sub 0 cs)"

definition str_count :: "string \<Rightarrow> string \<Rightarrow> nat" where
  "str_count content sub = count_from sub 0 content"

text \<open>
  The loop over a keyword list shared by the theme pass and the sustainable-finance pass:
  it adds up the counts and collects the keywords that matched.
\<close>

fun count_keywords :: "string list \<Rightarrow> string \<Rightarrow> nat \<Rightarrow> string list \<Rightarrow> nat \<times> string list" where
  "count_keywords [] content mentions found = (mentions, found)"
| "count_keywords (keyword # keywords) content mentions found =
     (let count = whole_word_count keyword content in
      if 0 < count then count_keywords keywords content (mentions + count) (found @ [keyword])
      else count_keywords keywords content mentions found)"

section \<open>Articles\<close>

text \<open>
  An article is a dict that the stages add keys to. The keys every search strategy sets
  are plain fields; a key that a later stage may or may not set is an \<open>option\<close>, \<open>None\<close>
  for a key that is absent. \<open>link\<close> and \<open>date\<close> hold what the browser returned, which is
  Python's \<open>None\<close> for a missing attribute.
\<close>

record quote =
  quote_text :: string
  speaker :: string
  pattern :: string

record article =
  title :: string
  date :: "string option"
  link :: "string option"
  excerpt :: string
  source :: string
  search_method :: string
  company :: string
  full_content :: "string option"
  categories :: "string list option"
  mention_count :: "nat option"
  relevant_paragraphs :: "string list option"
  esg_theme_counts :: "(string \<times> nat) list option"
  esg_keywords :: "(string \<times> string set) list option"
  primary_esg_focus :: "string option"
  sustainable_finance_mentions :: "nat option"
  sustainable_finance_keywords :: "string set option"
  sustainable_finance_focus :: "bool option"
  sentiment_score :: "rat option"
  sentiment :: "string option"
  positive_words :: "nat option"
  negative_words :: "nat option"
  quotes :: "quote list option"
  quote_count :: "nat option"

text \<open>The dict a search strategy builds.\<close>

definition new_article ::
  "string \<Rightarrow> string option \<Rightarrow> string option \<Rightarrow> string \<Rightarrow> string \<Rightarrow> string \<Rightarrow> string \<Rightarrow> article" where
  "new_article t d l e src method standard_name =
     \<lparr>title = t, date = d, link = l, excerpt = e, source = src, search_method = method,
      company = standard_name, full_content = None, categories = None, mention_count = None,
      relevant_paragraphs = None, esg_theme_counts = None, esg_keywords = None,
      primary_esg_focus = None, sustainable_finance_mentions = None,
      sustainable_finance_keywords = None, sustainable_finance_focus = None,
      sentiment_score = None, sentiment = None, positive_words = None,
      negative_words = None, quotes = None, quote_count = None\<rparr>"

text \<open>\<open>'full_content' not in article or not article['full_content']\<close>\<close>

definition no_content :: "article \<Rightarrow> bool" where
  "no_content a = (case full_content a of None \<Rightarrow> True | Some c \<Rightarrow> c = [])"

section \<open>Theme analysis\<close>

definition environmental_keywords :: "string list" where
  "environmental_keywords =
    [''climate'', ''carbon'', ''emissions'', ''renewable'', ''sustainable'',
     ''green'', ''environment'', ''pollution'', ''waste'', ''recycling'',
     ''biodiversity'', ''conservation'', ''energy efficiency'', ''net zero'',
     ''greenhouse gas'', ''ghg'', ''carbon neutral'', ''carbon footprint'']"

definition social_keywords :: "string list" where
  "social_keywords =
    [''diversity'', ''inclusion'', ''equity'', ''human rights'', ''labor'',
     ''community'', ''health'', ''safety'', ''wellbeing'', ''stakeholder'',
     ''employee'', ''workforce'', ''social impact'', ''ethical'', ''dei'',
     ''equal opportunity'', ''gender'', ''racial'', ''discrimination'',
     ''accessibility'', ''social justice'', ''fair trade'']"

definition governance_keywords :: "string list" where
  "governance_keywords =
    [''board'', ''executive'', ''compensation'', ''transparency'', ''disclosure'',
     ''compliance'', ''risk management'', ''ethics'', ''corruption'', ''bribery'',
     ''accountability'', ''shareholder'', ''voting'', ''audit'', ''regulatory'',
     ''corporate governance'', ''oversight'', ''fiduciary'', ''code of conduct'',
     ''conflict of interest'', ''whistleblower'', ''diversity targets'']"

text \<open>
  \<open>max(theme_counts.items(), key=lambda x: x[1])\<close>: Python's \<open>max\<close> keeps the item it
  has and replaces it only by one whose key is strictly greater, so among equal counts
  the first in the order of the dict wins.
\<close>

fun max_by_count :: "string \<times> nat \<Rightarrow> (string \<times> nat) list \<Rightarrow> string \<times> nat" where
  "max_by_count best [] = best"
| "max_by_count best (item # items) =
     (if snd best < snd item then max_by_count item items else max_by_count best items)"

text \<open>
  The body of the loop of \<open>analyze_esg_themes\<close> for one article. The dicts
  \<open>theme_counts\<close> and \<open>theme_keywords\<close> have the keys environmental, social, governance
  in this order; \<open>list(set(keywords))\<close> is kept as the set, its order not being fixed.
\<close>

definition analyze_esg_themes_article :: "article \<Rightarrow> article" where
  "analyze_esg_themes_article a =
     (if no_content a then a
      else
        (let content = lower (the (full_content a));
             env = count_keywords environmental_keywords content 0 [];
             soc = count_keywords social_keywords content 0 [];
             gov = count_keywords governance_keywords content 0 [];
             max_theme = max_by_count (''environmental'', fst env)
                           [(''social'', fst soc), (''governance'', fst gov)]
         in a\<lparr>esg_theme_counts :=
                 Some [(''environmental'', fst env), (''social'', fst soc), (''governance'', fst gov)],
               esg_keywords :=
                 Some [(''environmental'', set (snd env)), (''social'', set (snd soc)),
                       (''governance'', set (snd gov))],
               primary_esg_focus :=
                 Some (if 0 < snd max_theme then fst max_theme else ''undetermined'')\<rparr>))"


section \<open>Sustainable-finance analysis\<close>

definition sustainable_finance_keywords_list :: "string list" where
  "sustainable_finance_keywords_list =
    [''green bond'', ''sustainable bond'', ''social bond'',
     ''sustainability-linked'', ''transition finance'', ''esg fund'',
     ''impact investing'', ''socially responsible'', ''sri'',
     ''sustainable finance'', ''green finance'', ''climate finance'',
     ''net zero financing'', ''carbon neutral investment'', ''stranded assets'']"

definition add_sustainable_finance_data_article :: "article \<Rightarrow> article" where
  "add_sustainable_finance_data_article a =
     (if no_content a then a
      else
        (let content = lower (the (full_content a));
             fin = count_keywords sustainable_finance_keywords_list content 0 []
         in a\<lparr>sustainable_finance_mentions := Some (fst fin),
               sustainable_finance_keywords := Some (set (snd fin)),
               sustainable_finance_focus := Some (3 < fst fin)\<rparr>))"


section \<open>Quote extraction\<close>

text \<open>
  The two regular expressions of \<open>extract_quotes\<close> are run by Python's \<open>re\<close> module.
  Their results are parameters here: \<open>findall1 content\<close> and \<open>findall2 content\<close> are the
  lists of pairs that \<open>re.findall\<close> returns for the first and the second pattern, a
  (text, speaker) pair for the first and a (speaker, text) pair for the second.
\<close>

definition is_company_quote :: "string list \<Rightarrow> quote \<Rightarrow> bool" where
  "is_company_quote name_variations q =
     (any_variation_in name_variations (lower (speaker q)) \<or>
      any_variation_in name_variations (lower (quote_text q)))"

definition extract_quotes_article ::
  "(string \<Rightarrow> (string \<times> string) list) \<Rightarrow> (string \<Rightarrow> (string \<times> string) list) \<Rightarrow> article \<Rightarrow> article" where
  "extract_quotes_article findall1 findall2 a =
     (if no_content a then a
      else
        (let content = the (full_content a);
             found =
               map (\<lambda>m. \<lparr>quote_text = fst m, speaker = snd m, pattern = ''attribution''\<rparr>)
                   (findall1 content) @
               map (\<lambda>m. \<lparr>quote_text = snd m, speaker = fst m, pattern = ''preceding_attribution''\<rparr>)
                   (findall2 content);
             name_variations = snd (normalize_company_name (company a));
             company_quotes = filter (is_company_quote name_variations) found
         in a\<lparr>quotes := Some company_quotes, quote_count := Some (length company_quotes)\<rparr>))"


section \<open>Floating-point numbers\<close>

text \<open>
  A Python \<open>float\<close> is an IEEE 754 binary64 number. It is modelled by its value, a
  rational. \<open>fl x\<close> is the float nearest to \<open>x\<close>, the even one of two nearest: with \<open>e\<close>
  the binary exponent of \<open>x\<close> (at least -1022, where the subnormal numbers begin) the
  floats around \<open>x\<close> are the multiples of \<open>2 ^ (e - 52)\<close>. Magnitudes of \<open>2 ^ 1024\<close> and
  more, which overflow, do not occur in this program: every number it rounds is at most 1
  in magnitude.
\<close>

text \<open>The exponent \<open>e\<close> with \<open>2 ^ e \<le> \<bar>x\<bar> < 2 ^ (e + 1)\<close>, for \<open>x \<noteq> 0\<close>.\<close>

definition binary_exponent :: "rat \<Rightarrow> int" where
  "binary_exponent x =
     (let k = bitlen (fst (quotient_of \<bar>x\<bar>)) - bitlen (snd (quotient_of \<bar>x\<bar>))
      in if 2 powi k \<le> \<bar>x\<bar> then k else k - 1)"

definition round_half_even :: "rat \<Rightarrow> int" where
  "round_half_even x =
     (let f = \<lfloor>x\<rfloor>; d = x - of_int f
      in if d < 1 / 2 then f else if 1 / 2 < d then f + 1 else if even f then f else f + 1)"

definition fl :: "rat \<Rightarrow> rat" where
  "fl x =
     (if x = 0 then 0
      else let e = max (binary_exponent x) (- 1022); ulp = 2 powi (e - 52)
           in of_int (round_half_even (x / ulp)) * ulp)"

text \<open>
  \<open>round(x, 2)\<close> on a float: the decimal number with two digits after the point nearest
  to the exact value of \<open>x\<close> (the even one of two nearest), converted back to a float.
\<close>

definition py_round2 :: "rat \<Rightarrow> rat" where
  "py_round2 x = fl (of_int (round_half_even (x * 100)) / 100)"

section \<open>Sentiment analysis\<close>

definition positive_words_list :: "string list" where
  "positive_words_list =
    [''positive'', ''success'', ''innovation'', ''leadership'', ''achieve'',
     ''improve'', ''progress'', ''sustainable'', ''responsible'', ''ethical'',
     ''benefit'', ''advance'', ''growth'', ''excellence'', ''quality'',
     ''commitment'', ''partnership'', ''transparency'', ''trust'', ''award'']"

definition negative_words_list :: "string list" where
  "negative_words_list =
    [''negative'', ''fail'', ''risk'', ''concern'', ''issue'', ''problem'',
     ''controversy'', ''violation'', ''penalty'', ''fine'', ''litigation'',
     ''criticism'', ''damage'', ''greenwashing'', ''investigation'', ''scandal'',
     ''warning'', ''insufficient'', ''dangerous'', ''harmful'', ''misleading'']"

text \<open>\<open>sum(content.count(" " + word + " ") for word in words)\<close>\<close>

definition count_words :: "string list \<Rightarrow> string \<Rightarrow> nat" where
  "count_words ws content = (\<Sum>word\<leftarrow>ws. str_count content ('' '' @ word @ '' ''))"

text \<open>
  The local variable \<open>sentiment_score\<close>: the float quotient, or the integer 0 when no
  word was counted.
\<close>

definition raw_sentiment_score :: "nat \<Rightarrow> nat \<Rightarrow> rat" where
  "raw_sentiment_score positive_count negative_count =
     (let total_count = positive_count + negative_count in
      if 0 < total_count
      then fl (of_int (int positive_count - int negative_count) / of_int (int total_count))
      else 0)"

text \<open>The conditional expression on the literals \<open>0.1\<close> and \<open>-0.1\<close>, which are floats.\<close>

definition sentiment_label :: "rat \<Rightarrow> string" where
  "sentiment_label score =
     (if fl (1 / 10) < score then ''positive''
      else if score < - fl (1 / 10) then ''negative'' else ''neutral'')"

definition detect_sentiment_article :: "article \<Rightarrow> article" where
  "detect_sentiment_article a =
     (if no_content a then a
      else
        (let content = lower (the (full_content a));
             positive_count = count_words positive_words_list content;
             negative_count = count_words negative_words_list content;
             score = raw_sentiment_score positive_count negative_count
         in a\<lparr>sentiment_score := Some (py_round2 score),
               sentiment := Some (sentiment_label score),
               positive_words := Some positive_count,
               negative_words := Some negative_count\<rparr>))"


text \<open>
  The reading of the word counts as token counts: the tokens of a text are what
  \<open>str.split()\<close> returns, the maximal runs of characters that are not whitespace
  (whitespace on the code points 0 to 255: 9 to 13, 28 to 32, 133 and 160).
\<close>

definition is_space_code :: "nat \<Rightarrow> bool" where
  "is_space_code n = ((9 \<le> n \<and> n \<le> 13) \<or> (28 \<le> n \<and> n \<le> 32) \<or> n = 133 \<or> n = 160)"

fun split_tokens :: "string \<Rightarrow> string \<Rightarrow> string list" where
  "split_tokens current [] = (if current = [] then [] else [current])"
| "split_tokens current (c # cs) =
     (if is_space_code (of_char c)
      then (if current = [] then split_tokens [] cs else current # split_tokens [] cs)
      else split_tokens (current @ [c]) cs)"

definition whitespace_tokens :: "string \<Rightarrow> string list" where
  "whitespace_tokens s = split_tokens [] s"

text \<open>A word that has no whitespace character in it.\<close>

definition spaceless :: "string \<Rightarrow> bool" where
  "spaceless u = (\<forall>c\<in>set u. \<not> is_space_code (of_char c))"

definition token_occurrences :: "string list \<Rightarrow> string \<Rightarrow> nat" where
  "token_occurrences ws content = (\<Sum>word\<leftarrow>ws. count_list (whitespace_tokens content) word)"

text \<open>The exact quotient \<open>(pos - neg) / (pos + neg)\<close>, a rational number.\<close>

definition sentiment_ratio :: "nat \<Rightarrow> nat \<Rightarrow> rat" where
  "sentiment_ratio positive_count negative_count =
     of_int (int positive_count - int negative_count) / of_int (int (positive_count + negative_count))"

section \<open>The pages the browser shows\<close>

text \<open>
  The web is the environment of the scraper. Each page the scraper asks for is given by
  what \<open>driver.get\<close> does on each attempt (\<open>True\<close>: it returns, \<open>False\<close>: it raises) and by
  what the scraper then finds on the page. Looking an element up with a list of
  selectors is not modelled selector by selector: the environment gives the outcome of
  the whole lookup.
\<close>

text \<open>
  What the extraction of one article element of a result list comes to: an exception
  inside the \<open>try\<close> of the element, no title element under any selector, or a title
  with its \<open>href\<close> (\<open>None\<close> when the attribute is missing) and the date and excerpt
  texts (\<open>None\<close> when no selector finds them).
\<close>

datatype extraction =
    ExtractionRaised
  | NoTitle
  | Extracted string "string option" "string option" "string option"













section \<open>Searching for articles\<close>



















section \<open>Retrieving the content of the articles\<close>








section \<open>The report\<close>











section \<open>The complete analysis\<close>




text \<open>
  The analysis fields of claim C3 at their zero or empty defaults.
\<close>

definition has_default_analysis_fields :: "article \<Rightarrow> bool" where
  "has_default_analysis_fields a =
     (esg_theme_counts a = Some [(''environmental'', 0), (''social'', 0), (''governance'', 0)] \<and>
      esg_keywords a = Some [(''environmental'', {}), (''social'', {}), (''governance'', {})] \<and>
      primary_esg_focus a = Some ''undetermined'' \<and>
      sustainable_finance_mentions a = Some 0 \<and>
      sentiment_score a = Some 0 \<and>
      sentiment a = Some ''neutral'' \<and>
      quotes a = Some [] \<and>
      quote_count a = Some 0)"

definition all_passes ::
  "(string \<Rightarrow> (string \<times> string) list) \<Rightarrow> (string \<Rightarrow> (string \<times> string) list) \<Rightarrow> article \<Rightarrow> article" where
  "all_passes findall1 findall2 a =
     extract_quotes_article findall1 findall2
       (detect_sentiment_article
          (add_sustainable_finance_data_article (analyze_esg_themes_article a)))"



section \<open>Example runs\<close>









section \<open>Properties of the company-name normalisation\<close>

lemma lower_char_idem: "lower_char (lower_char c) = lower_char c"
proof (cases "is_upper_code (of_char c)")
  case True
  then have "of_char (char_of (of_char c + (32::nat))) = (of_char c + (32::nat))"
    by (auto simp: is_upper_code_def)
  moreover from True have "\<not> is_upper_code (of_char c + 32)"
    by (auto simp: is_upper_code_def)
  ultimately show ?thesis using True by (simp add: lower_char_def)
next
  case False
  then show ?thesis by (simp add: lower_char_def)
qed

lemma lower_idem: "lower (lower s) = lower s"
  by (simp add: lower_def lower_char_idem)

lemma lookup_variations_find:
  "lookup_variations c tbl = find (\<lambda>entry. c \<in> set (snd entry)) tbl"
  by (induction tbl) auto

lemma lookup_variations_Some:
  "lookup_variations c tbl = Some (k, vs) \<Longrightarrow> (k, vs) \<in> set tbl \<and> c \<in> set vs"
  by (induction tbl) (auto split: if_splits)

lemma table_keys_fixed:
  "list_all (\<lambda>(k, vs). lower k = k \<and> lookup_variations k company_variations = Some (k, vs))
     company_variations"
  by code_simp

text \<open>
  Claim C8. For every company name, \<open>normalize_company_name\<close> returns a pair of a canonical
  name and a list of variations that is not empty and has the lowercased input in it.
  When some entry of the table lists the lowercased input, the result is the first such
  entry (its key and its whole list); otherwise it is the lowercased input with the two
  variations: the lowercased input, and the lowercased input without its spaces.
  The function has no failing branch, so it always returns.
\<close>

theorem normalize_company_name_total:
  "(case normalize_company_name s of (canonical, variations) \<Rightarrow>
      variations \<noteq> [] \<and> lower s \<in> set variations) \<and>
   (case find (\<lambda>entry. lower s \<in> set (snd entry)) company_variations of
      Some entry \<Rightarrow> normalize_company_name s = entry
    | None \<Rightarrow> normalize_company_name s = (lower s, [lower s, remove_spaces (lower s)]))"
proof (cases "find (\<lambda>entry. lower s \<in> set (snd entry)) company_variations")
  case None
  then show ?thesis
    by (simp add: normalize_company_name_def lookup_variations_find Let_def)
next
  case (Some entry)
  then have "lower s \<in> set (snd entry)"
    by (auto simp: find_Some_iff)
  with Some show ?thesis
    by (cases entry) (auto simp: normalize_company_name_def lookup_variations_find Let_def)
qed

theorem normalize_company_name_total_witness:
  "normalize_company_name ''JP Morgan'' =
     (''jpmorgan'', [''jpmorgan'', ''jp morgan'', ''j.p. morgan'', ''jpm'', ''jpmc'',
                     ''j.p. morgan chase'', ''jpmorgan chase'']) \<and>
   normalize_company_name ''Acme Corp'' = (''acme corp'', [''acme corp'', ''acmecorp''])"
proof -
  have hit: "find (\<lambda>entry. lower ''JP Morgan'' \<in> set (snd entry)) company_variations =
     Some (''jpmorgan'', [''jpmorgan'', ''jp morgan'', ''j.p. morgan'', ''jpm'', ''jpmc'',
                          ''j.p. morgan chase'', ''jpmorgan chase''])"
    by code_simp
  have miss: "find (\<lambda>entry. ''acme corp'' \<in> set (snd entry)) company_variations = None"
    by code_simp
  have low: "lower ''Acme Corp'' = ''acme corp''"
    by code_simp
  have "normalize_company_name ''JP Morgan'' =
     (''jpmorgan'', [''jpmorgan'', ''jp morgan'', ''j.p. morgan'', ''jpm'', ''jpmc'',
                     ''j.p. morgan chase'', ''jpmorgan chase''])"
    using normalize_company_name_total [of "''JP Morgan''"] by (simp only: hit option.case)
  moreover have "normalize_company_name ''Acme Corp'' = (''acme corp'', [''acme corp'', ''acmecorp''])"
    using normalize_company_name_total [of "''Acme Corp''"]
    by (simp only: low miss option.case) (simp add: remove_spaces_def)
  ultimately show ?thesis by simp
qed

text \<open>
  Claim C10. \<open>normalize_company_name\<close> is idempotent: normalising the canonical name it
  returned gives the same canonical name and the same list of variations.
\<close>

theorem normalize_company_name_idempotent:
  "normalize_company_name (fst (normalize_company_name s)) = normalize_company_name s"
proof (cases "lookup_variations (lower s) company_variations")
  case None
  then show ?thesis by (simp add: normalize_company_name_def lower_idem Let_def)
next
  case (Some found)
  obtain k vs where kv: "found = (k, vs)" by (cases found)
  with Some have "(k, vs) \<in> set company_variations"
    using lookup_variations_Some by blast
  with table_keys_fixed have "lower k = k \<and> lookup_variations k company_variations = Some (k, vs)"
    by (auto simp: list_all_iff)
  with Some kv show ?thesis by (simp add: normalize_company_name_def Let_def)
qed

section \<open>Properties of the navigation with retries\<close>

declare safe_get_loop.simps(2) [simp del]

lemma safe_get_loop_ok:
  "driver_get url attempt \<Longrightarrow>
   safe_get_loop driver_get url retries d attempt (Suc remaining) = (Some True, [Navigate url])"
  by (subst safe_get_loop.simps) simp

lemma safe_get_loop_last:
  "\<not> driver_get url attempt \<Longrightarrow> \<not> int attempt < retries - 1 \<Longrightarrow>
   safe_get_loop driver_get url retries d attempt (Suc remaining) = (Some False, [Navigate url])"
  by (subst safe_get_loop.simps) simp

lemma safe_get_loop_retry:
  "\<not> driver_get url attempt \<Longrightarrow> int attempt < retries - 1 \<Longrightarrow>
   safe_get_loop driver_get url retries d attempt (Suc remaining) =
     (fst (safe_get_loop driver_get url retries d (Suc attempt) remaining),
      Navigate url # Sleep d # snd (safe_get_loop driver_get url retries d (Suc attempt) remaining))"
  by (subst safe_get_loop.simps) (simp split: prod.splits)

lemma attempts_trace_Suc:
  "1 \<le> n \<Longrightarrow> attempts_trace url d (Suc n) = Navigate url # Sleep d # attempts_trace url d n"
  by (cases n) auto

lemma safe_get_loop_spec:
  "int attempt + int (Suc remaining) = retries \<Longrightarrow>
   \<exists>n. 1 \<le> n \<and> n \<le> Suc remaining \<and>
       snd (safe_get_loop driver_get url retries d attempt (Suc remaining)) = attempts_trace url d n \<and>
       (\<forall>k<n - 1. \<not> driver_get url (attempt + k)) \<and>
       fst (safe_get_loop driver_get url retries d attempt (Suc remaining)) =
         Some (driver_get url (attempt + n - 1)) \<and>
       (\<not> driver_get url (attempt + n - 1) \<longrightarrow> n = Suc remaining)"
proof (induction remaining arbitrary: attempt)
  case 0
  then show ?case
    by (intro exI[of _ 1])
       (cases "driver_get url attempt"; simp add: safe_get_loop_ok safe_get_loop_last)
next
  case (Suc r)
  show ?case
  proof (cases "driver_get url attempt")
    case True
    then show ?thesis by (intro exI[of _ 1]) (simp add: safe_get_loop_ok)
  next
    case False
    from Suc.prems have lt: "int attempt < retries - 1" by simp
    from Suc.prems have "int (Suc attempt) + int (Suc r) = retries" by simp
    from Suc.IH[OF this] obtain n where n: "1 \<le> n" "n \<le> Suc r"
      "snd (safe_get_loop driver_get url retries d (Suc attempt) (Suc r)) = attempts_trace url d n"
      "\<forall>k<n - 1. \<not> driver_get url (Suc attempt + k)"
      "fst (safe_get_loop driver_get url retries d (Suc attempt) (Suc r)) =
         Some (driver_get url (Suc attempt + n - 1))"
      "\<not> driver_get url (Suc attempt + n - 1) \<longrightarrow> n = Suc r"
      by blast
    have fails: "\<forall>k<Suc n - 1. \<not> driver_get url (attempt + k)"
    proof (intro allI impI)
      fix k assume "k < Suc n - 1"
      show "\<not> driver_get url (attempt + k)"
      proof (cases k)
        case 0 with False show ?thesis by simp
      next
        case (Suc j)
        with \<open>k < Suc n - 1\<close> have "j < n - 1" by simp
        with n(4) have "\<not> driver_get url (Suc attempt + j)" by blast
        with Suc show ?thesis by simp
      qed
    qed
    define R where "R = safe_get_loop driver_get url retries d (Suc attempt) (Suc r)"
    have step: "safe_get_loop driver_get url retries d attempt (Suc (Suc r)) =
                  (fst R, Navigate url # Sleep d # snd R)"
      unfolding R_def using False lt by (rule safe_get_loop_retry)
    from n(1) have idx: "attempt + Suc n - 1 = Suc attempt + n - 1" by simp
    have "1 \<le> Suc n" "Suc n \<le> Suc (Suc r)" using n(2) by simp_all
    moreover have "snd (safe_get_loop driver_get url retries d attempt (Suc (Suc r))) =
                     attempts_trace url d (Suc n)"
      using n(1) n(3) by (simp add: step R_def attempts_trace_Suc)
    moreover have "fst (safe_get_loop driver_get url retries d attempt (Suc (Suc r))) =
                     Some (driver_get url (attempt + Suc n - 1))"
      using n(5) by (simp only: step R_def idx fst_conv)
    moreover have "\<not> driver_get url (attempt + Suc n - 1) \<longrightarrow> Suc n = Suc (Suc r)"
      using n(6) by (simp only: idx) simp
    ultimately show ?thesis using fails by blast
  qed
qed

text \<open>
  Claim C9. For every URL and every \<open>retries \<ge> 1\<close>, \<open>safe_get\<close> makes some number \<open>n\<close> of
  navigation attempts with \<open>1 \<le> n \<le> retries\<close>, sleeping \<open>retry_delay\<close> between two
  consecutive attempts and nowhere else; every attempt before the last one failed; the
  result is \<open>True\<close> when the last attempt succeeded and \<open>False\<close> when it failed, and it
  failed only when all \<open>retries\<close> attempts were made. So the function returns \<open>True\<close> at
  the first success and \<open>False\<close>, never an exception or \<open>None\<close>, after \<open>retries\<close> failures.
\<close>

theorem safe_get_bounded_retries:
  assumes "1 \<le> retries"
  shows "\<exists>n. 1 \<le> n \<and> int n \<le> retries \<and>
       snd (safe_get driver_get url retries retry_delay) = attempts_trace url retry_delay n \<and>
       (\<forall>k<n - 1. \<not> driver_get url k) \<and>
       fst (safe_get driver_get url retries retry_delay) = Some (driver_get url (n - 1)) \<and>
       (\<not> driver_get url (n - 1) \<longrightarrow> int n = retries)"
proof -
  from assms obtain r where r: "nat retries = Suc r"
    by (cases "nat retries") auto
  with assms have "int 0 + int (Suc r) = retries" by linarith
  from safe_get_loop_spec[OF this, of driver_get url retry_delay]
  obtain n where n: "1 \<le> n" "n \<le> Suc r"
       "snd (safe_get_loop driver_get url retries retry_delay 0 (Suc r)) =
          attempts_trace url retry_delay n"
       "(\<forall>k<n - 1. \<not> driver_get url (0 + k))"
       "fst (safe_get_loop driver_get url retries retry_delay 0 (Suc r)) =
          Some (driver_get url (0 + n - 1))"
       "(\<not> driver_get url (0 + n - 1) \<longrightarrow> n = Suc r)"
    by blast
  from r assms have "int (Suc r) = retries" by linarith
  with n r show ?thesis
    by (intro exI[of _ n]) (auto simp: safe_get_def)
qed

theorem safe_get_bounded_retries_witness:
  "(1::int) \<le> 3 \<and>
   (\<exists>n. 1 \<le> n \<and> int n \<le> 3 \<and>
       snd (safe_get (\<lambda>u k. 2 \<le> k) ''https://www.esgnews.com/?s=shell'' 3 (2::nat)) =
         [Navigate ''https://www.esgnews.com/?s=shell'', Sleep 2,
          Navigate ''https://www.esgnews.com/?s=shell'', Sleep 2,
          Navigate ''https://www.esgnews.com/?s=shell''] \<and>
       fst (safe_get (\<lambda>u k. 2 \<le> k) ''https://www.esgnews.com/?s=shell'' 3 (2::nat)) = Some True)"
proof -
  have h: "(1::int) \<le> 3" by simp
  have ev: "safe_get (\<lambda>u k. 2 \<le> k) ''https://www.esgnews.com/?s=shell'' 3 (2::nat) =
     (Some True, [Navigate ''https://www.esgnews.com/?s=shell'', Sleep 2,
          Navigate ''https://www.esgnews.com/?s=shell'', Sleep 2,
          Navigate ''https://www.esgnews.com/?s=shell''])"
    by (simp add: safe_get_def eval_nat_numeral safe_get_loop.simps)
  from safe_get_bounded_retries [OF h, of "\<lambda>u k. 2 \<le> k" "''https://www.esgnews.com/?s=shell''" "2::nat"]
  obtain n where "1 \<le> n" "int n \<le> 3" by blast
  with h ev show ?thesis by auto
qed

section \<open>Properties of the theme and sustainable-finance passes\<close>


lemma count_keywords_found:
  "snd (count_keywords ks content m f) = f @ filter (\<lambda>k. 0 < whole_word_count k content) ks"
  by (induction ks arbitrary: m f) (auto simp: Let_def)

lemma max_by_count_three:
  "max_by_count (n1, e) [(n2, s), (n3, g)] =
     (if s \<le> e \<and> g \<le> e then (n1, e) else if g \<le> s then (n2, s) else (n3, g))"
  by auto

text \<open>
  Claim C4. For an article with non-empty \<open>full_content\<close>, \<open>analyze_esg_themes\<close> records the
  three theme counts \<open>e\<close>, \<open>s\<close>, \<open>g\<close> (environmental, social, governance, in this order) and
  sets \<open>primary_esg_focus\<close> to "undetermined" if and only if all three are 0; otherwise to
  the theme with the greatest count, the first one in the order environmental, social,
  governance among equal counts.
\<close>

theorem primary_esg_focus_argmax:
  assumes "full_content a = Some c" and "c \<noteq> []"
  shows "\<exists>e s g.
     esg_theme_counts (analyze_esg_themes_article a) =
       Some [(''environmental'', e), (''social'', s), (''governance'', g)] \<and>
     (primary_esg_focus (analyze_esg_themes_article a) = Some ''undetermined''
        \<longleftrightarrow> e = 0 \<and> s = 0 \<and> g = 0) \<and>
     (\<not> (e = 0 \<and> s = 0 \<and> g = 0) \<longrightarrow>
        primary_esg_focus (analyze_esg_themes_article a) =
          Some (if s \<le> e \<and> g \<le> e then ''environmental''
                else if g \<le> s then ''social'' else ''governance''))"
proof -
  define content where "content = lower c"
  define e where "e = fst (count_keywords environmental_keywords content 0 [])"
  define s where "s = fst (count_keywords social_keywords content 0 [])"
  define g where "g = fst (count_keywords governance_keywords content 0 [])"
  from assms have nc: "\<not> no_content a" by (simp add: no_content_def)
  have counts: "esg_theme_counts (analyze_esg_themes_article a) =
       Some [(''environmental'', e), (''social'', s), (''governance'', g)]"
    using nc assms
    by (simp add: analyze_esg_themes_article_def Let_def e_def s_def g_def content_def)
  have focus: "primary_esg_focus (analyze_esg_themes_article a) =
      Some (let m = max_by_count (''environmental'', e) [(''social'', s), (''governance'', g)]
            in if 0 < snd m then fst m else ''undetermined'')"
    using nc assms
    by (simp add: analyze_esg_themes_article_def Let_def e_def s_def g_def content_def)
  show ?thesis
    apply (rule exI[of _ e], rule exI[of _ s], rule exI[of _ g])
    apply (simp only: counts focus max_by_count_three Let_def)
    apply auto
    done
qed

text \<open>
  The tie of the claim: two environmental matches (climate, carbon), two social ones
  (diversity, labor) and no governance match give "environmental".
\<close>

theorem primary_esg_focus_argmax_witness:
  "full_content ((new_article ''t'' None None ''e'' ''ESG Today'' ''direct_search'' ''shell'')
       \<lparr>full_content := Some ''Climate and carbon; diversity and labor''\<rparr>)
     = Some ''Climate and carbon; diversity and labor'' \<and>
   ''Climate and carbon; diversity and labor'' \<noteq> [] \<and>
   esg_theme_counts (analyze_esg_themes_article
     ((new_article ''t'' None None ''e'' ''ESG Today'' ''direct_search'' ''shell'')
       \<lparr>full_content := Some ''Climate and carbon; diversity and labor''\<rparr>))
     = Some [(''environmental'', 2), (''social'', 2), (''governance'', 0)] \<and>
   primary_esg_focus (analyze_esg_themes_article
     ((new_article ''t'' None None ''e'' ''ESG Today'' ''direct_search'' ''shell'')
       \<lparr>full_content := Some ''Climate and carbon; diversity and labor''\<rparr>))
     = Some ''environmental''"
proof -
  let ?c = "''Climate and carbon; diversity and labor''"
  let ?a = "(new_article ''t'' None None ''e'' ''ESG Today'' ''direct_search'' ''shell'')
       \<lparr>full_content := Some ?c\<rparr>"
  have h1: "full_content ?a = Some ?c" by simp
  have h2: "?c \<noteq> []" by simp
  have counts: "esg_theme_counts (analyze_esg_themes_article ?a)
     = Some [(''environmental'', 2), (''social'', 2), (''governance'', 0)]"
    by code_simp
  from primary_esg_focus_argmax [OF h1 h2] obtain e s g where
    c: "esg_theme_counts (analyze_esg_themes_article ?a) =
       Some [(''environmental'', e), (''social'', s), (''governance'', g)]" and
    f: "\<not> (e = 0 \<and> s = 0 \<and> g = 0) \<longrightarrow>
        primary_esg_focus (analyze_esg_themes_article ?a) =
          Some (if s \<le> e \<and> g \<le> e then ''environmental''
                else if g \<le> s then ''social'' else ''governance'')"
    by blast
  from c counts have "e = 2" "s = 2" "g = 0" by simp_all
  with f have "primary_esg_focus (analyze_esg_themes_article ?a) = Some ''environmental''"
    by simp
  with h1 h2 counts show ?thesis by blast
qed



section \<open>Properties of the floating-point operations\<close>




lemma round_half_even_int [simp]: "round_half_even (of_int n) = n"
  by (simp add: round_half_even_def)
















text \<open>\<open>binary_exponent\<close> is the exponent of the binade of its argument.\<close>

lemma binary_exponent_bounds:
  assumes "x \<noteq> 0"
  shows "2 powi (binary_exponent x) \<le> \<bar>x\<bar> \<and> \<bar>x\<bar> < 2 powi (binary_exponent x + 1)"
proof -
  obtain a b where ab: "quotient_of \<bar>x\<bar> = (a, b)" by (cases "quotient_of \<bar>x\<bar>")
  then have b: "0 < b" by (rule quotient_of_denom_pos)
  from ab have x: "\<bar>x\<bar> = of_int a / of_int b" by (rule quotient_of_div)
  from assms have "0 < \<bar>x\<bar>" by simp
  with x b have a: "0 < a" by (simp add: zero_less_divide_iff)
  define la where "la = nat (bitlen a)"
  define lb where "lb = nat (bitlen b)"
  have la1: "1 \<le> la" and lb1: "1 \<le> lb"
    using a b bitlen_eq_zero_iff[of a] bitlen_eq_zero_iff[of b] bitlen_nonneg[of a] bitlen_nonneg[of b]
    by (auto simp: la_def lb_def)
  have bla: "bitlen a = int la" and blb: "bitlen b = int lb"
    using bitlen_nonneg by (simp_all add: la_def lb_def)
  from bitlen_bounds[OF a] have "2 ^ (la - 1) \<le> a" "a < 2 ^ la"
    using la1 by (simp_all add: la_def nat_diff_distrib)
  then have ra: "(2::rat) ^ (la - 1) \<le> of_int a" "(of_int a :: rat) < 2 ^ la"
    by (metis of_int_le_iff of_int_numeral of_int_power, metis of_int_less_iff of_int_numeral of_int_power)
  from bitlen_bounds[OF b] have "2 ^ (lb - 1) \<le> b" "b < 2 ^ lb"
    using lb1 by (simp_all add: lb_def nat_diff_distrib)
  then have rb: "(2::rat) ^ (lb - 1) \<le> of_int b" "(of_int b :: rat) < 2 ^ lb"
    by (metis of_int_le_iff of_int_numeral of_int_power, metis of_int_less_iff of_int_numeral of_int_power)
  have bpos: "(0::rat) < of_int b" using b by simp
  define k where "k = int la - int lb"
  have pk1: "(2::rat) powi (k + 1) = 2 ^ la / 2 ^ (lb - 1)"
  proof -
    have "k + 1 = int la - int (lb - 1)" using lb1 by (simp add: k_def)
    then show ?thesis by (simp add: power_int_diff)
  qed
  have pkm: "(2::rat) powi (k - 1) = 2 ^ (la - 1) / 2 ^ lb"
  proof -
    have "k - 1 = int (la - 1) - int lb" using la1 by (simp add: k_def)
    then show ?thesis by (simp add: power_int_diff)
  qed
  have upper: "\<bar>x\<bar> < 2 powi (k + 1)"
  proof -
    have "of_int a / of_int b < (2::rat) ^ la / of_int b"
      using ra(2) bpos by (simp add: divide_strict_right_mono)
    also have "\<dots> \<le> 2 ^ la / 2 ^ (lb - 1)"
      using rb(1) bpos by (intro divide_left_mono) (auto intro: mult_pos_pos)
    finally show ?thesis by (simp add: x pk1)
  qed
  have lower: "2 powi (k - 1) \<le> \<bar>x\<bar>"
  proof -
    have "(2::rat) ^ (la - 1) / 2 ^ lb \<le> 2 ^ (la - 1) / of_int b"
      using rb(2) bpos by (intro divide_left_mono) auto
    also have "\<dots> \<le> of_int a / of_int b"
      using ra(1) bpos by (simp add: divide_right_mono)
    finally show ?thesis by (simp add: x pkm)
  qed
  have e: "binary_exponent x = (if 2 powi k \<le> \<bar>x\<bar> then k else k - 1)"
    by (simp add: binary_exponent_def Let_def ab bla blb k_def)
  show ?thesis
  proof (cases "2 powi k \<le> \<bar>x\<bar>")
    case True
    with e upper show ?thesis by simp
  next
    case False
    with e lower show ?thesis by simp
  qed
qed

section \<open>Properties of the sentiment pass\<close>








text \<open>
  The sentiment is decided on the unrounded quotient and the score is stored rounded:
  69 positive and 56 negative words give the quotient 0.104, which is stored as 0.1
  with the sentiment "positive"; the quotient 0.1000001 is positive as well.
\<close>

lemma stored_score_tenth_positive:
  "py_round2 (raw_sentiment_score 69 56) = fl (1 / 10) \<and>
   sentiment_label (raw_sentiment_score 69 56) = ''positive''"
  by code_simp

lemma quotient_just_above_tenth_positive:
  "sentiment_ratio 11000001 8999999 = 1000001 / 10000000 \<and>
   sentiment_label (fl (sentiment_ratio 11000001 8999999)) = ''positive''"
proof -
  have q: "sentiment_ratio 11000001 8999999 = 1000001 / 10000000"
    by (simp add: sentiment_ratio_def)
  have "sentiment_label (fl (1000001 / 10000000)) = ''positive''" by code_simp
  with q show ?thesis by (simp only: simp_thms)
qed


section \<open>What the sentiment pass counts\<close>

text \<open>
  Claim C6, as stated, fails: the counts are not the numbers of whitespace-delimited
  tokens. In "Shell wins sustainability award" the token "award" occurs once, and the
  pass counts no positive word, since no space follows the word.
\<close>

theorem sentiment_counts_tokens_counterexample:
  "positive_words (detect_sentiment_article
     ((new_article ''t'' None None ''e'' ''ESG Today'' ''direct_search'' ''shell'')
       \<lparr>full_content := Some ''Shell wins sustainability award''\<rparr>)) = Some 0 \<and>
   token_occurrences positive_words_list (lower ''Shell wins sustainability award'') = 1"
proof -
  let ?c = "''Shell wins sustainability award''"
  let ?a = "(new_article ''t'' None None ''e'' ''ESG Today'' ''direct_search'' ''shell'')
       \<lparr>full_content := Some ?c\<rparr>"
  have nc: "\<not> no_content ?a" by (simp add: no_content_def)
  have c: "count_words positive_words_list (lower ?c) = 0" by code_simp
  have t: "token_occurrences positive_words_list (lower ?c) = 1" by code_simp
  from nc c have "positive_words (detect_sentiment_article ?a) = Some 0"
    by (simp add: detect_sentiment_article_def Let_def)
  with t show ?thesis by simp
qed

lemma split_tokens_spaceless:
  "spaceless u \<Longrightarrow> split_tokens cur (u @ t) = split_tokens (cur @ u) t"
  by (induction u arbitrary: cur) (auto simp: spaceless_def)

lemma count_from_skip:
  "length u = k \<Longrightarrow> count_from sub k (u @ t) = count_from sub 0 t"
  by (induction u arbitrary: k) auto

lemma space_is_space: "is_space_code (of_char CHR '' '')"
  by (simp add: is_space_code_def)

lemma split_tokens_at_match:
  assumes "spaceless w" and "w \<noteq> []"
  shows "split_tokens cur (CHR '' '' # w @ CHR '' '' # rest) =
           (if cur = [] then [] else [cur]) @ w # split_tokens [] rest"
proof -
  have "split_tokens [] (w @ CHR '' '' # rest) = split_tokens w (CHR '' '' # rest)"
    using split_tokens_spaceless[OF assms(1), of "[]"] by simp
  also have "\<dots> = w # split_tokens [] rest"
    using assms(2) by (simp add: is_space_code_def)
  finally show ?thesis by (simp add: is_space_code_def)
qed

lemma count_from_at_match:
  "count_from (CHR '' '' # w @ '' '') 0 (CHR '' '' # w @ CHR '' '' # rest) =
     1 + count_from (CHR '' '' # w @ '' '') 0 rest"
proof -
  have "count_from (CHR '' '' # w @ '' '') (length (w @ '' '')) ((w @ '' '') @ rest) =
          count_from (CHR '' '' # w @ '' '') 0 rest"
    by (rule count_from_skip) simp
  then show ?thesis by simp
qed

lemma count_list_split_tokens_step:
  "\<exists>cur'. count_list (split_tokens cur' cs) w \<le> count_list (split_tokens cur (c # cs)) w"
  by (cases "is_space_code (of_char c)"; cases "cur = []") (auto intro: exI[of _ "[]"] exI[of _ "cur @ [c]"])

lemma padded_count_le_tokens:
  assumes "spaceless w" and "w \<noteq> []"
  shows "count_from (CHR '' '' # w @ '' '') 0 s \<le> count_list (split_tokens cur s) w"
proof (induction "length s" arbitrary: s cur rule: less_induct)
  case less
  show ?case
  proof (cases s)
    case Nil
    then show ?thesis by simp
  next
    case (Cons c cs)
    show ?thesis
    proof (cases "prefix (CHR '' '' # w @ '' '') s")
      case True
      then obtain rest where s: "s = CHR '' '' # w @ CHR '' '' # rest"
        by (auto simp: prefix_def)
      then have "length rest < length s" by simp
      from less[OF this, of "[]"]
      have "count_from (CHR '' '' # w @ '' '') 0 rest \<le> count_list (split_tokens [] rest) w" .
      then show ?thesis
        by (simp only: s count_from_at_match split_tokens_at_match[OF assms]) simp
    next
      case False
      with Cons have c: "count_from (CHR '' '' # w @ '' '') 0 s = count_from (CHR '' '' # w @ '' '') 0 cs"
        by auto
      from count_list_split_tokens_step[of cs w cur c] obtain cur' where
        "count_list (split_tokens cur' cs) w \<le> count_list (split_tokens cur (c # cs)) w" by blast
      moreover from Cons have "length cs < length s" by simp
      from less[OF this, of cur']
      have "count_from (CHR '' '' # w @ '' '') 0 cs \<le> count_list (split_tokens cur' cs) w" .
      ultimately show ?thesis using c Cons by simp
    qed
  qed
qed

lemma count_words_le_token_occurrences:
  assumes "\<forall>w\<in>set ws. spaceless w \<and> w \<noteq> []"
  shows "count_words ws content \<le> token_occurrences ws content"
  unfolding count_words_def token_occurrences_def
  using assms
proof (induction ws)
  case Nil
  then show ?case by simp
next
  case (Cons w ws)
  then have "spaceless w" "w \<noteq> []" by simp_all
  from padded_count_le_tokens[OF this, of content "[]"]
  have "str_count content ('' '' @ w @ '' '') \<le> count_list (whitespace_tokens content) w"
    by (simp add: str_count_def whitespace_tokens_def)
  moreover from Cons have "(\<Sum>word\<leftarrow>ws. str_count content ('' '' @ word @ '' '')) \<le>
      (\<Sum>word\<leftarrow>ws. count_list (whitespace_tokens content) word)" by simp
  ultimately show ?case by simp
qed

lemma sentiment_words_spaceless:
  "\<forall>w\<in>set positive_words_list. spaceless w \<and> w \<noteq> []"
  "\<forall>w\<in>set negative_words_list. spaceless w \<and> w \<noteq> []"
  by (simp_all add: positive_words_list_def negative_words_list_def spaceless_def is_space_code_def)

text \<open>
  Claim C6, amended. For an article with non-empty \<open>full_content\<close>, the positive and the
  negative count are, for each word of the respective list, the number of occurrences in
  the lowercased content of the word with one space before it and one space after it
  (occurrences that do not overlap, counted from the left), added up over the list. Each
  of the two counts is at most the number of whitespace-delimited tokens of the lowercased
  content that are words of the list.
\<close>

theorem sentiment_counts_space_padded:
  assumes "full_content a = Some c" and "c \<noteq> []"
  shows "positive_words (detect_sentiment_article a) =
           Some (\<Sum>word\<leftarrow>positive_words_list. str_count (lower c) ('' '' @ word @ '' '')) \<and>
         negative_words (detect_sentiment_article a) =
           Some (\<Sum>word\<leftarrow>negative_words_list. str_count (lower c) ('' '' @ word @ '' '')) \<and>
         (\<Sum>word\<leftarrow>positive_words_list. str_count (lower c) ('' '' @ word @ '' ''))
           \<le> token_occurrences positive_words_list (lower c) \<and>
         (\<Sum>word\<leftarrow>negative_words_list. str_count (lower c) ('' '' @ word @ '' ''))
           \<le> token_occurrences negative_words_list (lower c)"
proof -
  from assms have nc: "\<not> no_content a" by (simp add: no_content_def)
  with assms have "positive_words (detect_sentiment_article a) =
           Some (\<Sum>word\<leftarrow>positive_words_list. str_count (lower c) ('' '' @ word @ '' ''))"
    and "negative_words (detect_sentiment_article a) =
           Some (\<Sum>word\<leftarrow>negative_words_list. str_count (lower c) ('' '' @ word @ '' ''))"
    by (simp_all add: detect_sentiment_article_def Let_def count_words_def)
  moreover have "(\<Sum>word\<leftarrow>positive_words_list. str_count (lower c) ('' '' @ word @ '' ''))
           \<le> token_occurrences positive_words_list (lower c)"
    using count_words_le_token_occurrences[OF sentiment_words_spaceless(1), of "lower c"]
    by (simp only: count_words_def)
  moreover have "(\<Sum>word\<leftarrow>negative_words_list. str_count (lower c) ('' '' @ word @ '' ''))
           \<le> token_occurrences negative_words_list (lower c)"
    using count_words_le_token_occurrences[OF sentiment_words_spaceless(2), of "lower c"]
    by (simp only: count_words_def)
  ultimately show ?thesis by blast
qed

text \<open>
  In this content "award" is a token three times and is counted twice, the last one
  having no space after it; "risk" and "fine" are counted each time.
\<close>

theorem sentiment_counts_space_padded_witness:
  "full_content ((new_article ''t'' None None ''e'' ''ESG Today'' ''direct_search'' ''shell'')
       \<lparr>full_content := Some ''A risk award and an award was a risk and a fine award''\<rparr>)
     = Some ''A risk award and an award was a risk and a fine award'' \<and>
   ''A risk award and an award was a risk and a fine award'' \<noteq> [] \<and>
   positive_words (detect_sentiment_article
     ((new_article ''t'' None None ''e'' ''ESG Today'' ''direct_search'' ''shell'')
       \<lparr>full_content := Some ''A risk award and an award was a risk and a fine award''\<rparr>)) = Some 2 \<and>
   negative_words (detect_sentiment_article
     ((new_article ''t'' None None ''e'' ''ESG Today'' ''direct_search'' ''shell'')
       \<lparr>full_content := Some ''A risk award and an award was a risk and a fine award''\<rparr>)) = Some 3 \<and>
   token_occurrences positive_words_list
     (lower ''A risk award and an award was a risk and a fine award'') = 3 \<and>
   token_occurrences negative_words_list
     (lower ''A risk award and an award was a risk and a fine award'') = 3"
proof -
  let ?c = "''A risk award and an award was a risk and a fine award''"
  let ?a = "(new_article ''t'' None None ''e'' ''ESG Today'' ''direct_search'' ''shell'')
       \<lparr>full_content := Some ?c\<rparr>"
  have h1: "full_content ?a = Some ?c" by simp
  have h2: "?c \<noteq> []" by simp
  have p: "(\<Sum>word\<leftarrow>positive_words_list. str_count (lower ?c) ('' '' @ word @ '' '')) = 2"
    by code_simp
  have n: "(\<Sum>word\<leftarrow>negative_words_list. str_count (lower ?c) ('' '' @ word @ '' '')) = 3"
    by code_simp
  have tp: "token_occurrences positive_words_list (lower ?c) = 3" by code_simp
  have tn: "token_occurrences negative_words_list (lower ?c) = 3" by code_simp
  from sentiment_counts_space_padded [OF h1 h2] p n
  have "positive_words (detect_sentiment_article ?a) = Some 2"
    and "negative_words (detect_sentiment_article ?a) = Some 3"
    by simp_all
  with h1 h2 tp tn show ?thesis by blast
qed

section \<open>The links of the articles of a run\<close>















section \<open>Articles without content\<close>

text \<open>
  Claim C3, as stated, fails: the passes do not set the analysis fields of an article
  without content to defaults, they leave the article as it is. An article whose page
  gave an empty text has none of the analysis keys after the four passes.
\<close>

theorem analysis_defaults_counterexample:
  "no_content ((new_article ''Shell issues green bond'' (Some ''Date not found'')
                  (Some ''https://www.esgnews.com/shell-green-bond/'') ''Excerpt not available''
                  ''ESG Today'' ''direct_search'' ''shell'')\<lparr>full_content := Some []\<rparr>) \<and>
   \<not> has_default_analysis_fields (all_passes (\<lambda>content. []) (\<lambda>content. [])
      ((new_article ''Shell issues green bond'' (Some ''Date not found'')
                  (Some ''https://www.esgnews.com/shell-green-bond/'') ''Excerpt not available''
                  ''ESG Today'' ''direct_search'' ''shell'')\<lparr>full_content := Some []\<rparr>)) \<and>
   esg_theme_counts (all_passes (\<lambda>content. []) (\<lambda>content. [])
      ((new_article ''Shell issues green bond'' (Some ''Date not found'')
                  (Some ''https://www.esgnews.com/shell-green-bond/'') ''Excerpt not available''
                  ''ESG Today'' ''direct_search'' ''shell'')\<lparr>full_content := Some []\<rparr>)) = None"
  by (simp add: no_content_def all_passes_def analyze_esg_themes_article_def
        add_sustainable_finance_data_article_def detect_sentiment_article_def
        extract_quotes_article_def has_default_analysis_fields_def new_article_def)

text \<open>
  Claim C3, amended. For every article missing \<open>full_content\<close> (key absent or value empty),
  each of the four analysis passes (themes, sustainable finance, sentiment, quotes) skips
  the article without raising and leaves it unchanged: no analysis field is set, and a
  key that was absent stays absent.
\<close>

theorem passes_skip_article_without_content:
  assumes "no_content a"
  shows "analyze_esg_themes_article a = a \<and>
         add_sustainable_finance_data_article a = a \<and>
         detect_sentiment_article a = a \<and>
         extract_quotes_article findall1 findall2 a = a \<and>
         all_passes findall1 findall2 a = a"
  using assms
  by (simp add: analyze_esg_themes_article_def add_sustainable_finance_data_article_def
        detect_sentiment_article_def extract_quotes_article_def all_passes_def)

theorem passes_skip_article_without_content_witness:
  "no_content (new_article ''Shell issues green bond'' (Some ''Date not found'')
                  (Some ''https://www.esgnews.com/shell-green-bond/'') ''Excerpt not available''
                  ''ESG Today'' ''direct_search'' ''shell'') \<and>
   all_passes (\<lambda>content. []) (\<lambda>content. [])
     (new_article ''Shell issues green bond'' (Some ''Date not found'')
                  (Some ''https://www.esgnews.com/shell-green-bond/'') ''Excerpt not available''
                  ''ESG Today'' ''direct_search'' ''shell'') =
     new_article ''Shell issues green bond'' (Some ''Date not found'')
                  (Some ''https://www.esgnews.com/shell-green-bond/'') ''Excerpt not available''
                  ''ESG Today'' ''direct_search'' ''shell'' \<and>
   sentiment (all_passes (\<lambda>content. []) (\<lambda>content. [])
     (new_article ''Shell issues green bond'' (Some ''Date not found'')
                  (Some ''https://www.esgnews.com/shell-green-bond/'') ''Excerpt not available''
                  ''ESG Today'' ''direct_search'' ''shell'')) = None"
proof -
  let ?a = "new_article ''Shell issues green bond'' (Some ''Date not found'')
                  (Some ''https://www.esgnews.com/shell-green-bond/'') ''Excerpt not available''
                  ''ESG Today'' ''direct_search'' ''shell''"
  have h: "no_content ?a" by (simp add: no_content_def new_article_def)
  from passes_skip_article_without_content [OF h, of "\<lambda>content. []" "\<lambda>content. []"]
  have e: "all_passes (\<lambda>content. []) (\<lambda>content. []) ?a = ?a" by blast
  have "sentiment ?a = None" by (simp add: new_article_def)
  with h e show ?thesis by simp
qed

section \<open>Articles whose content could not be fetched\<close>






































end
